theory Spec2Isabelle
  imports Complex_Main
begin

section \<open>The Genius game of App.tsx\<close>

text \<open>
  The component \<open>App\<close> keeps its whole game in six \<open>useState\<close> cells; its handlers
  (\<open>startGame\<close>, \<open>addNewToSequence\<close>, \<open>handlePlayerInput\<close>), the asynchronous
  \<open>playSequence\<close> and the \<open>useEffect\<close> that starts it are modelled here as functions on
  a record of those cells. A handler returns the new cells together with the effects it
  requested (sounds, timers, the alert). Events are handled one at a time and the
  component re-renders after each, so a handler reads the cells as they stand. Sound
  loading (\<open>soundObjects\<close>) and rendering are left out.
\<close>

subsection \<open>Constants and data\<close>

text \<open>The keys of \<open>COLORS\<close>; \<open>Object.values(COLORS)\<close> lists them in insertion order.\<close>

datatype color = GREEN | RED | YELLOW | BLUE

definition colorsArray :: "color list" where
  "colorsArray = [GREEN, RED, YELLOW, BLUE]"

definition SEQUENCE_DELAY :: nat where
  "SEQUENCE_DELAY = 800"

definition HIGHLIGHT_DURATION :: nat where
  "HIGHLIGHT_DURATION = 300"

datatype game_state = Idle | Watching | Playing | GameOver

text \<open>The argument of \<open>playSound\<close>: a colour or \<open>'ERROR'\<close>.\<close>

datatype sound = ColorSound color | ERROR

text \<open>
  The \<open>useState\<close> cells. Scores are JavaScript numbers that only ever hold counts
  (\<open>0\<close>, \<open>prev + 1\<close>), modelled as \<open>nat\<close>.
\<close>

record app_state =
  sequence :: "color list"
  playerSequence :: "color list"
  currentScore :: nat
  highScore :: nat
  gameState :: game_state
  activeButton :: "color option"

definition initial_state :: app_state where
  "initial_state = \<lparr>sequence = [], playerSequence = [], currentScore = 0, highScore = 0,
     gameState = Idle, activeButton = None\<rparr>"

text \<open>
  What an \<open>async\<close> function does between two suspension points: the statements of
  \<open>playSequence\<close>, one constructor per kind of statement; \<open>Await d\<close> is
  \<open>await new Promise(resolve => setTimeout(resolve, d))\<close>.
\<close>

datatype action =
    SetActiveButton "color option"
  | PlaySnd color
  | Await nat
  | SetGameState game_state
  | SetPlayerSequence "color list"

text \<open>
  The callbacks handed to \<open>setTimeout\<close>: \<open>() => setActiveButton(null)\<close>,
  \<open>() => { addNewToSequence(); }\<close>, and the rest of a suspended \<open>playSequence\<close>.
\<close>

datatype callback =
    ClearActiveButton
  | AddNewToSequence
  | Resume "action list"

text \<open>
  The effects a handler requests: \<open>playSound(x)\<close>, \<open>setTimeout(cb, d)\<close>, and
  \<open>Alert.alert("Game Over!", ...)\<close> with the score and the high score it prints (its
  only button, "Try Again", calls \<open>startGame\<close>).
\<close>

datatype effect =
    PlaySound sound
  | SetTimeout callback nat
  | Alert nat nat

text \<open>\<open>xs[i]\<close> in JavaScript: \<open>undefined\<close> (here \<open>None\<close>) out of range.\<close>

fun js_index :: "'a list \<Rightarrow> nat \<Rightarrow> 'a option" where
  "js_index [] i = None"
| "js_index (x # xs) 0 = Some x"
| "js_index (x # xs) (Suc i) = js_index xs i"

subsection \<open>Game logic\<close>

text \<open>
  \<open>colorsArray[Math.floor(Math.random() * colorsArray.length)]\<close>, with the value
  \<open>u\<close> of \<open>Math.random()\<close> as a parameter; \<open>Math.random()\<close> returns \<open>0 \<le> u < 1\<close>.
  The product of a double by 4 is exact, so the index is the same over the reals.
\<close>

definition nextColor :: "real \<Rightarrow> color" where
  "nextColor u = colorsArray ! nat \<lfloor>u * real (length colorsArray)\<rfloor>"

definition addNewToSequence :: "real \<Rightarrow> app_state \<Rightarrow> app_state" where
  "addNewToSequence u s = s\<lparr>sequence := sequence s @ [nextColor u]\<rparr>"

text \<open>
  \<open>startGame\<close> queues five state updates, applied in order when the component
  re-renders; the last is the functional update of \<open>addNewToSequence\<close>, which sees the
  emptied sequence.
\<close>

definition startGame :: "real \<Rightarrow> app_state \<Rightarrow> app_state" where
  "startGame u s =
     (let s1 = s\<lparr>sequence := []\<rparr>;
          s2 = s1\<lparr>playerSequence := []\<rparr>;
          s3 = s2\<lparr>currentScore := 0\<rparr>;
          s4 = s3\<lparr>gameState := Watching\<rparr>
      in addNewToSequence u s4)"

text \<open>
  \<open>handlePlayerInput\<close>. It reads \<open>gameState\<close>, \<open>playerSequence\<close>, \<open>sequence\<close>,
  \<open>currentScore\<close> and \<open>highScore\<close> of the render it belongs to (the cells \<open>s\<close>).
\<close>

definition handlePlayerInput :: "color \<Rightarrow> app_state \<Rightarrow> app_state \<times> effect list" where
  "handlePlayerInput c s =
     (if gameState s \<noteq> Playing then (s, [])
      else
        let newPlayerSequence = playerSequence s @ [c];
            s1 = s\<lparr>activeButton := Some c, playerSequence := newPlayerSequence\<rparr>;
            fx1 = [PlaySound (ColorSound c), SetTimeout ClearActiveButton (HIGHLIGHT_DURATION div 2)]
        in
          if js_index newPlayerSequence (length newPlayerSequence - 1)
               \<noteq> js_index (sequence s) (length newPlayerSequence - 1)
          then
            (s1\<lparr>gameState := GameOver,
                highScore := (if currentScore s > highScore s then currentScore s else highScore s)\<rparr>,
             fx1 @ [PlaySound ERROR,
                    Alert (currentScore s)
                      (if currentScore s > highScore s then currentScore s else highScore s)])
          else if length newPlayerSequence = length (sequence s)
          then
            (s1\<lparr>currentScore := currentScore s + 1, gameState := Watching\<rparr>,
             fx1 @ [SetTimeout AddNewToSequence 1000])
          else (s1, fx1))"

subsection \<open>Playback\<close>

text \<open>
  The \<open>for\<close> loop of \<open>playSequence\<close> over the captured \<open>sequence\<close>, from index \<open>i\<close>:
  the statements it executes, in order.
\<close>

function playLoop :: "color list \<Rightarrow> nat \<Rightarrow> action list" where
  "playLoop sq i =
     (if i < length sq
      then [SetActiveButton (Some (sq ! i)), PlaySnd (sq ! i), Await HIGHLIGHT_DURATION,
            SetActiveButton None]
           @ (if i < length sq - 1 then [Await (SEQUENCE_DELAY - HIGHLIGHT_DURATION)] else [])
           @ playLoop sq (i + 1)
      else [])"
  by pat_completeness auto
termination
  by (relation "measure (\<lambda>(sq, i). length sq - i)") auto

declare playLoop.simps [simp del]

definition playSequence_body :: "app_state \<Rightarrow> action list" where
  "playSequence_body s =
     (if gameState s \<noteq> Watching \<or> length (sequence s) = 0 then []
      else playLoop (sequence s) 0 @ [SetGameState Playing, SetPlayerSequence []])"

text \<open>
  Running the statements of an \<open>async\<close> body up to its next \<open>await\<close>, where the rest is
  handed to a timer.
\<close>

fun run_actions :: "action list \<Rightarrow> app_state \<Rightarrow> app_state \<times> effect list" where
  "run_actions [] s = (s, [])"
| "run_actions (Await d # rest) s = (s, [SetTimeout (Resume rest) d])"
| "run_actions (SetActiveButton b # rest) s = run_actions rest (s\<lparr>activeButton := b\<rparr>)"
| "run_actions (PlaySnd c # rest) s =
     (let (s', fx) = run_actions rest s in (s', PlaySound (ColorSound c) # fx))"
| "run_actions (SetGameState g # rest) s = run_actions rest (s\<lparr>gameState := g\<rparr>)"
| "run_actions (SetPlayerSequence p # rest) s = run_actions rest (s\<lparr>playerSequence := p\<rparr>)"

definition playSequence :: "app_state \<Rightarrow> app_state \<times> effect list" where
  "playSequence s = run_actions (playSequence_body s) s"

text \<open>
  The effect with dependencies \<open>[sequence, gameState, playSequence]\<close>: it runs after a
  render in which one of them changed. \<open>playSequence\<close> is rebuilt exactly when
  \<open>sequence\<close> or \<open>gameState\<close> changed (\<open>playSound\<close> is fixed once the sounds are
  loaded), so \<open>changed\<close> is: the sequence cell was set, or \<open>gameState\<close> differs.
\<close>

definition useEffect_playSequence :: "bool \<Rightarrow> app_state \<Rightarrow> app_state \<times> effect list" where
  "useEffect_playSequence changed s =
     (if changed \<and> gameState s = Watching \<and> length (sequence s) > 0 then playSequence s
      else (s, []))"

subsection \<open>The playback plan of the specification\<close>

text \<open>
  Following the specification's words (build\_playback\_plan): one step per symbol of
  the sequence, \<open>{symbol, highlight_on_duration, gap_after_duration}\<close>; the highlight
  duration is \<open>HIGHLIGHT_DURATION\<close>, the gap is \<open>SEQUENCE_DELAY - HIGHLIGHT_DURATION\<close>
  for every step except the last, whose gap is zero. The source has no such value: it
  is compared below with the loop of \<open>playSequence\<close>.
\<close>

record playback_step =
  symbol :: color
  highlight_on_duration :: nat
  gap_after_duration :: nat

definition build_playback_plan :: "color list \<Rightarrow> playback_step list" where
  "build_playback_plan sq =
     map (\<lambda>i. \<lparr>symbol = sq ! i, highlight_on_duration = HIGHLIGHT_DURATION,
                gap_after_duration =
                  (if i = length sq - 1 then 0 else SEQUENCE_DELAY - HIGHLIGHT_DURATION)\<rparr>)
       [0..<length sq]"

text \<open>
  Executing a step: highlight the symbol and play its sound, wait the highlight
  duration, clear the highlight, then wait the gap when there is one.
\<close>

definition perform_step :: "playback_step \<Rightarrow> action list" where
  "perform_step p =
     [SetActiveButton (Some (symbol p)), PlaySnd (symbol p), Await (highlight_on_duration p),
      SetActiveButton None]
     @ (if gap_after_duration p = 0 then [] else [Await (gap_after_duration p)])"

definition perform_plan :: "playback_step list \<Rightarrow> action list" where
  "perform_plan ps = concat (map perform_step ps)"

subsection \<open>The running application: timers and events\<close>

text \<open>
  The application at run time: the cells, the time in milliseconds, and the pending
  timers with the time each is due, in the order of their creation.
\<close>

type_synonym timer = "nat \<times> callback"

record sys =
  app :: app_state
  clock :: nat
  timers :: "timer list"

definition init_sys :: sys where
  "init_sys = \<lparr>app = initial_state, clock = 0, timers = []\<rparr>"

text \<open>The timer that fires next: the least due time, the oldest first among equals.\<close>

fun earliest :: "timer list \<Rightarrow> timer option" where
  "earliest [] = None"
| "earliest (t # ts) =
     (case earliest ts of
        None \<Rightarrow> Some t
      | Some t' \<Rightarrow> if fst t \<le> fst t' then Some t else Some t')"

fun new_timers :: "nat \<Rightarrow> effect list \<Rightarrow> timer list" where
  "new_timers t [] = []"
| "new_timers t (SetTimeout cb d # fx) = (t + d, cb) # new_timers t fx"
| "new_timers t (PlaySound x # fx) = new_timers t fx"
| "new_timers t (Alert a b # fx) = new_timers t fx"

text \<open>A timer's callback; \<open>u\<close> is the value of \<open>Math.random()\<close> should it draw.\<close>

fun run_callback :: "real \<Rightarrow> callback \<Rightarrow> app_state \<Rightarrow> app_state \<times> effect list" where
  "run_callback u ClearActiveButton s = (s\<lparr>activeButton := None\<rparr>, [])"
| "run_callback u AddNewToSequence s = (addNewToSequence u s, [])"
| "run_callback u (Resume rest) s = run_actions rest s"

text \<open>
  One handler or callback \<open>h\<close> runs on the current cells, the component re-renders, and
  the playback effect runs if \<open>sequence\<close> was set (\<open>seqSet\<close>) or \<open>gameState\<close> changed.
  The timers requested are due from the current time.
\<close>

definition dispatch :: "(app_state \<Rightarrow> app_state \<times> effect list) \<Rightarrow> bool \<Rightarrow> sys \<Rightarrow> sys" where
  "dispatch h seqSet S =
     (let (s1, fx1) = h (app S);
          (s2, fx2) = useEffect_playSequence (seqSet \<or> gameState s1 \<noteq> gameState (app S)) s1
      in S\<lparr>app := s2, timers := timers S @ new_timers (clock S) (fx1 @ fx2)\<rparr>)"

text \<open>
  What can happen: the user presses a start button (Start Game, Play Again?, or the
  alert's Try Again), the user presses a colour, time passes (at most up to the next
  timer), or the next timer fires. \<open>startGame\<close> and \<open>handlePlayerInput\<close> are run
  whatever the game state is, as the source has no other guard than their own.
\<close>

datatype event = Start real | Press color | Wait nat | Fire real

fun step :: "event \<Rightarrow> sys \<Rightarrow> sys" where
  "step (Start u) S = dispatch (\<lambda>s. (startGame u s, [])) True S"
| "step (Press c) S = dispatch (handlePlayerInput c) False S"
| "step (Wait d) S =
     S\<lparr>clock := (case earliest (timers S) of
                    None \<Rightarrow> clock S + d
                  | Some (t, cb) \<Rightarrow> min (clock S + d) (max (clock S) t))\<rparr>"
| "step (Fire u) S =
     (case earliest (timers S) of
        None \<Rightarrow> S
      | Some (t, cb) \<Rightarrow>
          dispatch (run_callback u cb) (cb = AddNewToSequence)
            (S\<lparr>clock := max (clock S) t, timers := remove1 (t, cb) (timers S)\<rparr>))"

fun run :: "event list \<Rightarrow> sys \<Rightarrow> sys" where
  "run [] S = S"
| "run (e # es) S = run es (step e S)"

fun valid_event :: "event \<Rightarrow> bool" where
  "valid_event (Start u) = (0 \<le> u \<and> u < 1)"
| "valid_event (Fire u) = (0 \<le> u \<and> u < 1)"
| "valid_event (Press c) = True"
| "valid_event (Wait d) = True"

text \<open>\<open>addNewToSequence\<close> called once for each value of \<open>Math.random()\<close> in a list.\<close>

fun generate :: "real list \<Rightarrow> app_state \<Rightarrow> app_state" where
  "generate [] s = s"
| "generate (u # us) s = generate us (addNewToSequence u s)"

text \<open>
  The shape of every suspended playback: it only highlights, plays sounds and waits,
  and ends by setting \<open>gameState\<close> to Playing and emptying the player's sequence in one
  go.
\<close>

fun benign :: "action list \<Rightarrow> bool" where
  "benign [] = True"
| "benign (SetActiveButton b # rest) = benign rest"
| "benign (PlaySnd c # rest) = benign rest"
| "benign (Await d # rest) = benign rest"
| "benign (SetGameState g # SetPlayerSequence p # rest) = (g = Playing \<and> p = [] \<and> benign rest)"
| "benign (SetGameState g # rest) = False"
| "benign (SetPlayerSequence p # rest) = False"

definition app_inv :: "app_state \<Rightarrow> bool" where
  "app_inv s \<longleftrightarrow>
     length (playerSequence s) \<le> length (sequence s)
     \<and> (gameState s = Playing \<longrightarrow> length (playerSequence s) < length (sequence s))
     \<and> (gameState s \<noteq> Idle \<longrightarrow> sequence s \<noteq> [])"

definition sys_inv :: "sys \<Rightarrow> bool" where
  "sys_inv S \<longleftrightarrow>
     app_inv (app S)
     \<and> (timers S \<noteq> [] \<longrightarrow> gameState (app S) \<noteq> Idle)
     \<and> (\<forall>t rest. (t, Resume rest) \<in> set (timers S) \<longrightarrow> benign rest)"

definition started :: "app_state \<Rightarrow> bool" where
  "started s \<longleftrightarrow> app_inv s \<and> gameState s \<noteq> Idle"

definition timers_ok :: "timer list \<Rightarrow> bool" where
  "timers_ok ts \<longleftrightarrow> (\<forall>t rest. (t, Resume rest) \<in> set ts \<longrightarrow> benign rest)"

text \<open>
  Two rounds of a game. Start Game is pressed and \<open>[GREEN]\<close> is played back (300 ms);
  the player waits 100 ms and repeats it; the highlight timer, a playback step and the
  round timer (which appends \<open>RED\<close>) fire. The player then presses \<open>GREEN\<close> and
  \<open>RED\<close>, which completes the second round and sets the game state to Watching; the
  two highlight timers and two playback steps fire. The round timer of the second
  round is then the next to fire.
\<close>

definition two_rounds :: "event list" where
  "two_rounds =
     [Start 0, Fire 0, Wait 100, Press GREEN, Fire 0, Fire 0,
      Fire (1/4), Wait 300, Press GREEN, Wait 100, Press RED,
      Fire 0, Fire 0, Fire 0, Fire 0]"

text \<open>The first game at the moment the player is about to repeat \<open>[GREEN]\<close>.\<close>

definition before_replay :: sys where
  "before_replay = run [Start 0, Fire 0, Wait 100] init_sys"

text \<open>Two positions in the middle of a round, the sequence being \<open>[GREEN, RED]\<close>.\<close>

definition playing_GR :: sys where
  "playing_GR =
     \<lparr>app = \<lparr>sequence = [GREEN, RED], playerSequence = [GREEN], currentScore = 1,
             highScore = 0, gameState = Playing, activeButton = None\<rparr>,
      clock = 5000, timers = []\<rparr>"

definition losing_GR :: sys where
  "losing_GR =
     \<lparr>app = \<lparr>sequence = [GREEN, RED], playerSequence = [GREEN], currentScore = 3,
             highScore = 1, gameState = Playing, activeButton = None\<rparr>,
      clock = 5000, timers = []\<rparr>"

subsection \<open>Facts about the handlers\<close>

lemmas game_defs = init_sys_def initial_state_def dispatch_def startGame_def
  addNewToSequence_def nextColor_def colorsArray_def useEffect_playSequence_def
  playSequence_def playSequence_body_def playLoop.simps handlePlayerInput_def
  HIGHLIGHT_DURATION_def SEQUENCE_DELAY_def Let_def

lemma js_index_nth: "js_index xs i = (if i < length xs then Some (xs ! i) else None)"
  by (induction xs i rule: js_index.induct) auto

lemma js_index_snoc_last: "js_index (xs @ [c]) (length xs) = Some c"
  by (simp add: js_index_nth)

text \<open>\<open>handlePlayerInput\<close> by cases, the test on the last index resolved.\<close>

lemma handlePlayerInput_cases:
  "handlePlayerInput c s =
     (if gameState s \<noteq> Playing then (s, [])
      else if js_index (sequence s) (length (playerSequence s)) \<noteq> Some c
      then (s\<lparr>activeButton := Some c, playerSequence := playerSequence s @ [c],
              gameState := GameOver, highScore := max (highScore s) (currentScore s)\<rparr>,
            [PlaySound (ColorSound c), SetTimeout ClearActiveButton 150, PlaySound ERROR,
             Alert (currentScore s) (max (highScore s) (currentScore s))])
      else if length (playerSequence s) + 1 = length (sequence s)
      then (s\<lparr>activeButton := Some c, playerSequence := playerSequence s @ [c],
              currentScore := currentScore s + 1, gameState := Watching\<rparr>,
            [PlaySound (ColorSound c), SetTimeout ClearActiveButton 150,
             SetTimeout AddNewToSequence 1000])
      else (s\<lparr>activeButton := Some c, playerSequence := playerSequence s @ [c]\<rparr>,
            [PlaySound (ColorSound c), SetTimeout ClearActiveButton 150]))"
  by (auto simp: handlePlayerInput_def Let_def js_index_snoc_last HIGHLIGHT_DURATION_def max_def)

lemma nextColor_range:
  assumes "0 \<le> u" and "u < 1"
  shows "nat \<lfloor>u * real (length colorsArray)\<rfloor> < length colorsArray"
proof -
  have "u * 4 < 4" using assms by simp
  then have "\<lfloor>u * 4\<rfloor> < 4" by linarith
  then have "nat \<lfloor>u * 4\<rfloor> < 4" by linarith
  moreover have "length colorsArray = 4" by (simp add: colorsArray_def)
  ultimately show ?thesis by simp
qed

lemma run_actions_frame:
  "sequence (fst (run_actions acts s)) = sequence s
   \<and> currentScore (fst (run_actions acts s)) = currentScore s
   \<and> highScore (fst (run_actions acts s)) = highScore s"
  by (induction acts s rule: run_actions.induct) (auto split: prod.splits)

lemma run_actions_no_AddNew:
  "SetTimeout AddNewToSequence d \<notin> set (snd (run_actions acts s))"
  by (induction acts s rule: run_actions.induct) (auto split: prod.splits)

lemma new_timers_append: "new_timers t (fx @ fy) = new_timers t fx @ new_timers t fy"
  by (induction t fx rule: new_timers.induct) auto

lemma new_timers_mem:
  "(t', cb) \<in> set (new_timers t fx) \<longleftrightarrow> (\<exists>d. SetTimeout cb d \<in> set fx \<and> t' = t + d)"
  by (induction t fx rule: new_timers.induct) auto

lemma earliest_mem: "earliest ts = Some x \<Longrightarrow> x \<in> set ts"
  by (induction ts arbitrary: x) (auto split: option.splits if_splits)

lemma benign_playLoop: "benign rest \<Longrightarrow> benign (playLoop sq i @ rest)"
proof (induction sq i rule: playLoop.induct)
  case (1 sq i)
  then show ?case
    by (subst playLoop.simps) auto
qed

lemma playSequence_start:
  assumes "gameState s = Watching" and "sequence s \<noteq> []"
  shows "\<exists>rest. benign rest \<and>
     playSequence s = (s\<lparr>activeButton := Some (sequence s ! 0)\<rparr>,
        [PlaySound (ColorSound (sequence s ! 0)), SetTimeout (Resume rest) HIGHLIGHT_DURATION])"
proof -
  let ?fin = "[SetGameState Playing, SetPlayerSequence []]"
  have b: "benign (playLoop (sequence s) (0 + 1) @ ?fin)"
    by (rule benign_playLoop) simp
  show ?thesis
    using assms b
    by (simp add: playSequence_def playSequence_body_def playLoop.simps [of "sequence s" 0])
qed

lemma useEffect_cases:
  "useEffect_playSequence ch s = (s, [])
   \<or> (gameState s = Watching \<and> sequence s \<noteq> [] \<and> ch \<and>
      (\<exists>rest. benign rest \<and>
        useEffect_playSequence ch s = (s\<lparr>activeButton := Some (sequence s ! 0)\<rparr>,
          [PlaySound (ColorSound (sequence s ! 0)), SetTimeout (Resume rest) HIGHLIGHT_DURATION])))"
  using playSequence_start [of s]
  by (auto simp: useEffect_playSequence_def)

text \<open>The playback effect touches no cell but \<open>activeButton\<close> and requests one resumption.\<close>

lemma useEffect_frame:
  "sequence (fst (useEffect_playSequence ch s)) = sequence s
   \<and> playerSequence (fst (useEffect_playSequence ch s)) = playerSequence s
   \<and> currentScore (fst (useEffect_playSequence ch s)) = currentScore s
   \<and> highScore (fst (useEffect_playSequence ch s)) = highScore s
   \<and> gameState (fst (useEffect_playSequence ch s)) = gameState s
   \<and> SetTimeout AddNewToSequence d \<notin> set (snd (useEffect_playSequence ch s))"
  using useEffect_cases [of ch s] by auto

lemma dispatch_app:
  "app (dispatch h b S) =
     fst (useEffect_playSequence (b \<or> gameState (fst (h (app S))) \<noteq> gameState (app S))
            (fst (h (app S))))"
  by (simp add: dispatch_def case_prod_unfold Let_def)

lemma dispatch_timers:
  "timers (dispatch h b S) =
     timers S @ new_timers (clock S) (snd (h (app S)))
     @ new_timers (clock S)
         (snd (useEffect_playSequence (b \<or> gameState (fst (h (app S))) \<noteq> gameState (app S))
                 (fst (h (app S)))))"
  by (simp add: dispatch_def case_prod_unfold Let_def new_timers_append)

subsection \<open>An invariant of the running application\<close>

lemma started_activeButton [simp]: "started (s\<lparr>activeButton := b\<rparr>) = started s"
  by (simp add: started_def app_inv_def)

lemma started_to_Playing:
  "started s \<Longrightarrow> started (s\<lparr>gameState := Playing, playerSequence := []\<rparr>)"
  by (auto simp: started_def app_inv_def)

lemma run_actions_benign:
  assumes "benign acts" and "started s"
  shows "started (fst (run_actions acts s))
     \<and> (\<forall>cb d. SetTimeout cb d \<in> set (snd (run_actions acts s))
          \<longrightarrow> (\<exists>rest. cb = Resume rest \<and> benign rest))"
  using assms
proof (induction acts arbitrary: s rule: benign.induct)
  case (5 g p rest)
  from "5.prems" have g: "g = Playing" "p = []" "benign rest" by auto
  from "5.IH" [OF g(3) started_to_Playing [OF "5.prems"(2)]] show ?case using g by simp
next
  case (2 b rest)
  from "2.prems" have "benign rest" "started (s\<lparr>activeButton := b\<rparr>)" by simp_all
  from "2.IH" [OF this] show ?case by simp
next
  case (3 c rest)
  from "3.prems" have "benign rest" "started s" by simp_all
  from "3.IH" [OF this] show ?case by (simp add: case_prod_unfold Let_def)
qed simp_all

lemma handlePlayerInput_inv:
  assumes "app_inv s"
  shows "app_inv (fst (handlePlayerInput c s))
    \<and> (gameState s = Idle \<longrightarrow> handlePlayerInput c s = (s, []))
    \<and> (gameState s \<noteq> Idle \<longrightarrow> gameState (fst (handlePlayerInput c s)) \<noteq> Idle)
    \<and> (\<forall>rest d. SetTimeout (Resume rest) d \<notin> set (snd (handlePlayerInput c s)))"
  using assms
  by (auto simp: handlePlayerInput_def app_inv_def Let_def js_index_nth split: if_splits)

lemma startGame_started: "started (startGame u s)"
  by (simp add: started_def app_inv_def startGame_def addNewToSequence_def)

lemma addNew_started: "started s \<Longrightarrow> started (addNewToSequence u s)"
  by (auto simp: started_def app_inv_def addNewToSequence_def)

lemma run_callback_started:
  assumes "started s" and "\<forall>rest. cb = Resume rest \<longrightarrow> benign rest"
  shows "started (fst (run_callback u cb s))
     \<and> (\<forall>cb' d. SetTimeout cb' d \<in> set (snd (run_callback u cb s))
          \<longrightarrow> (\<exists>rest. cb' = Resume rest \<and> benign rest))"
  using assms run_actions_benign
  by (cases cb) (auto simp: addNew_started)

lemma dispatch_inv:
  assumes h: "app_inv (fst (h (app S)))"
    and t: "timers_ok (timers S)"
    and fx: "\<forall>cb d. SetTimeout cb d \<in> set (snd (h (app S)))
               \<longrightarrow> (\<forall>rest. cb = Resume rest \<longrightarrow> benign rest)"
    and idle: "gameState (fst (h (app S))) = Idle \<longrightarrow> timers S = [] \<and> snd (h (app S)) = []"
  shows "sys_inv (dispatch h b S)"
proof -
  obtain s1 fx1 where h1: "h (app S) = (s1, fx1)" by (cases "h (app S)")
  let ?ch = "b \<or> gameState s1 \<noteq> gameState (app S)"
  from useEffect_cases [of ?ch s1]
  show ?thesis
  proof
    assume e: "useEffect_playSequence ?ch s1 = (s1, [])"
    show ?thesis
      using h t fx idle h1 e
      by (auto simp: sys_inv_def dispatch_def timers_ok_def new_timers_append new_timers_mem)
  next
    assume "gameState s1 = Watching \<and> sequence s1 \<noteq> [] \<and> ?ch \<and>
      (\<exists>rest. benign rest \<and>
        useEffect_playSequence ?ch s1 = (s1\<lparr>activeButton := Some (sequence s1 ! 0)\<rparr>,
          [PlaySound (ColorSound (sequence s1 ! 0)), SetTimeout (Resume rest) HIGHLIGHT_DURATION]))"
    then obtain rest where w: "gameState s1 = Watching" and b: "benign rest"
      and e: "useEffect_playSequence ?ch s1 = (s1\<lparr>activeButton := Some (sequence s1 ! 0)\<rparr>,
          [PlaySound (ColorSound (sequence s1 ! 0)), SetTimeout (Resume rest) HIGHLIGHT_DURATION])"
      by blast
    have "app_inv (s1\<lparr>activeButton := Some (sequence s1 ! 0)\<rparr>)"
      using h h1 by (simp add: app_inv_def)
    then show ?thesis
      using t fx h1 e w b
      by (auto simp: sys_inv_def dispatch_def timers_ok_def new_timers_append new_timers_mem)
  qed
qed

lemma step_inv:
  assumes "sys_inv S"
  shows "sys_inv (step e S)"
proof (cases e)
  case (Start u)
  have st: "started (startGame u (app S))" by (rule startGame_started)
  have "sys_inv (dispatch (\<lambda>s. (startGame u s, [])) True S)"
  proof (rule dispatch_inv)
    show "app_inv (fst (startGame u (app S), []))" using st by (simp add: started_def)
    show "timers_ok (timers S)" using assms by (simp add: sys_inv_def timers_ok_def)
    show "\<forall>cb d. SetTimeout cb d \<in> set (snd (startGame u (app S), []))
            \<longrightarrow> (\<forall>rest. cb = Resume rest \<longrightarrow> benign rest)" by simp
    show "gameState (fst (startGame u (app S), [])) = Idle
            \<longrightarrow> timers S = [] \<and> snd (startGame u (app S), []) = []"
      using st by (simp add: started_def)
  qed
  then show ?thesis using Start by simp
next
  case (Press c)
  from assms have a: "app_inv (app S)" by (simp add: sys_inv_def)
  note hp = handlePlayerInput_inv [OF a, of c]
  have "sys_inv (dispatch (handlePlayerInput c) False S)"
  proof (rule dispatch_inv)
    show "app_inv (fst (handlePlayerInput c (app S)))" using hp by simp
    show "timers_ok (timers S)" using assms by (simp add: sys_inv_def timers_ok_def)
    show "\<forall>cb d. SetTimeout cb d \<in> set (snd (handlePlayerInput c (app S)))
            \<longrightarrow> (\<forall>rest. cb = Resume rest \<longrightarrow> benign rest)" using hp by blast
    show "gameState (fst (handlePlayerInput c (app S))) = Idle
            \<longrightarrow> timers S = [] \<and> snd (handlePlayerInput c (app S)) = []"
      using hp assms by (cases "gameState (app S) = Idle") (auto simp: sys_inv_def)
  qed
  then show ?thesis using Press by simp
next
  case (Wait d)
  then show ?thesis using assms by (simp add: sys_inv_def)
next
  case (Fire u)
  show ?thesis
  proof (cases "earliest (timers S)")
    case None
    then show ?thesis using assms Fire by simp
  next
    case (Some x)
    obtain t cb where x: "x = (t, cb)" by (cases x)
    have m: "(t, cb) \<in> set (timers S)" using Some x earliest_mem by blast
    then have st: "started (app S)" using assms by (auto simp: sys_inv_def started_def)
    have bn: "\<forall>rest. cb = Resume rest \<longrightarrow> benign rest"
      using assms m by (auto simp: sys_inv_def)
    let ?S = "S\<lparr>clock := max (clock S) t, timers := remove1 (t, cb) (timers S)\<rparr>"
    note rc = run_callback_started [OF st bn, of u]
    have "sys_inv (dispatch (run_callback u cb) (cb = AddNewToSequence) ?S)"
    proof (rule dispatch_inv)
      show "app_inv (fst (run_callback u cb (app ?S)))" using rc by (simp add: started_def)
      show "timers_ok (timers ?S)"
        using assms by (auto simp: sys_inv_def timers_ok_def dest: notin_set_remove1)
      show "\<forall>cb' d. SetTimeout cb' d \<in> set (snd (run_callback u cb (app ?S)))
              \<longrightarrow> (\<forall>rest. cb' = Resume rest \<longrightarrow> benign rest)" using rc by auto
      show "gameState (fst (run_callback u cb (app ?S))) = Idle
              \<longrightarrow> timers ?S = [] \<and> snd (run_callback u cb (app ?S)) = []"
        using rc by (simp add: started_def)
    qed
    then show ?thesis using Fire Some x by simp
  qed
qed

lemma init_inv: "sys_inv init_sys"
  by (simp add: sys_inv_def app_inv_def init_sys_def initial_state_def)

lemma run_inv: "sys_inv S \<Longrightarrow> sys_inv (run es S)"
  by (induction es arbitrary: S) (simp_all add: step_inv)

lemma two_rounds_result:
  "run two_rounds init_sys =
     \<lparr>app = \<lparr>sequence = [GREEN, RED], playerSequence = [GREEN, RED], currentScore = 2,
             highScore = 0, gameState = Watching, activeButton = Some RED\<rparr>,
      clock = 2600,
      timers = [(2800, AddNewToSequence),
                (2900, Resume [SetActiveButton None, SetGameState Playing,
                               SetPlayerSequence []])]\<rparr>"
  by (simp add: two_rounds_def game_defs)

subsection \<open>Facts about single events\<close>

lemma step_frame:
  "highScore (app (step e S)) = highScore (app S)
   \<or> (\<exists>c. e = Press c \<and> gameState (app S) = Playing
         \<and> js_index (sequence (app S)) (length (playerSequence (app S))) \<noteq> Some c
         \<and> highScore (app S) < currentScore (app S)
         \<and> highScore (app (step e S)) = currentScore (app S)
         \<and> gameState (app (step e S)) = GameOver)"
proof (cases e)
  case (Start u)
  then show ?thesis by (simp add: dispatch_app useEffect_frame startGame_def addNewToSequence_def)
next
  case (Press c)
  then show ?thesis
    by (auto simp: dispatch_app useEffect_frame handlePlayerInput_cases max_def)
next
  case (Wait d)
  then show ?thesis by simp
next
  case (Fire u)
  show ?thesis
  proof (cases "earliest (timers S)")
    case None
    then show ?thesis using Fire by simp
  next
    case (Some x)
    obtain t cb where x: "x = (t, cb)" by (cases x)
    have "highScore (fst (run_callback u cb (app S))) = highScore (app S)"
      by (cases cb) (simp_all add: addNewToSequence_def run_actions_frame)
    then show ?thesis using Fire Some x by (simp add: dispatch_app useEffect_frame)
  qed
qed

lemma step_highScore_le: "highScore (app S) \<le> highScore (app (step e S))"
  using step_frame [of e S] by auto

lemma run_highScore_le: "highScore (app S) \<le> highScore (app (run es S))"
proof (induction es arbitrary: S)
  case Nil
  show ?case by simp
next
  case (Cons e es)
  have "highScore (app S) \<le> highScore (app (step e S))" by (rule step_highScore_le)
  also have "\<dots> \<le> highScore (app (run es (step e S)))" by (rule Cons.IH)
  finally show ?case by simp
qed

lemma step_sequence:
  "sequence (app (step e S)) = sequence (app S)
   \<or> (\<exists>u. e = Start u \<and> sequence (app (step e S)) = [nextColor u])
   \<or> (\<exists>u t. e = Fire u \<and> earliest (timers S) = Some (t, AddNewToSequence)
         \<and> sequence (app (step e S)) = sequence (app S) @ [nextColor u])"
proof (cases e)
  case (Start u)
  then show ?thesis by (simp add: dispatch_app useEffect_frame startGame_def addNewToSequence_def)
next
  case (Press c)
  then show ?thesis by (simp add: dispatch_app useEffect_frame handlePlayerInput_cases)
next
  case (Wait d)
  then show ?thesis by simp
next
  case (Fire u)
  show ?thesis
  proof (cases "earliest (timers S)")
    case None
    then show ?thesis using Fire by simp
  next
    case (Some x)
    obtain t cb where x: "x = (t, cb)" by (cases x)
    show ?thesis using Fire Some x
      by (cases cb) (simp_all add: dispatch_app useEffect_frame addNewToSequence_def run_actions_frame)
  qed
qed

lemma step_AddNew_timer:
  assumes "(t, AddNewToSequence) \<in> set (timers (step e S))"
  shows "(t, AddNewToSequence) \<in> set (timers S)
     \<or> (\<exists>c. e = Press c \<and> gameState (app S) = Playing
           \<and> js_index (sequence (app S)) (length (playerSequence (app S))) = Some c
           \<and> length (playerSequence (app S)) + 1 = length (sequence (app S))
           \<and> gameState (app (step e S)) = Watching \<and> t = clock S + 1000)"
proof (cases e)
  case (Start u)
  then show ?thesis using assms
    by (auto simp: dispatch_timers new_timers_mem useEffect_frame)
next
  case (Press c)
  then show ?thesis using assms
    by (auto simp: dispatch_timers dispatch_app new_timers_mem useEffect_frame
        handlePlayerInput_cases split: if_splits)
next
  case (Wait d)
  then show ?thesis using assms by simp
next
  case (Fire u)
  show ?thesis
  proof (cases "earliest (timers S)")
    case None
    then show ?thesis using Fire assms by simp
  next
    case (Some x)
    obtain t' cb where x: "x = (t', cb)" by (cases x)
    have "SetTimeout AddNewToSequence d \<notin> set (snd (run_callback u cb (app S)))" for d
      by (cases cb) (simp_all add: run_actions_no_AddNew)
    then show ?thesis using Fire Some x assms
      by (auto simp: dispatch_timers new_timers_mem useEffect_frame
          dest: set_remove1_subset [THEN subsetD])
  qed
qed

lemma generate_eq: "generate us s = s\<lparr>sequence := sequence s @ map nextColor us\<rparr>"
  by (induction us arbitrary: s) (simp_all add: addNewToSequence_def)

lemma nextColor_mem:
  assumes "0 \<le> u" and "u < 1"
  shows "nextColor u \<in> set colorsArray"
  unfolding nextColor_def using nextColor_range [OF assms] by (rule nth_mem)

lemma set_colorsArray: "set colorsArray = {GREEN, RED, YELLOW, BLUE}"
  by (simp add: colorsArray_def)

lemma playLoop_plan:
  "playLoop sq i =
     concat (map (\<lambda>j. perform_step
        \<lparr>symbol = sq ! j, highlight_on_duration = HIGHLIGHT_DURATION,
         gap_after_duration =
           (if j = length sq - 1 then 0 else SEQUENCE_DELAY - HIGHLIGHT_DURATION)\<rparr>)
       [i..<length sq])"
proof (induction sq i rule: playLoop.induct)
  case (1 sq i)
  show ?case
  proof (cases "i < length sq")
    case True
    have gap: "SEQUENCE_DELAY - HIGHLIGHT_DURATION \<noteq> 0"
      by (simp add: SEQUENCE_DELAY_def HIGHLIGHT_DURATION_def)
    have last: "(i < length sq - 1) = (i \<noteq> length sq - 1)" using True by auto
    show ?thesis
      using True "1.IH" gap last
      by (subst playLoop.simps) (simp add: upt_conv_Cons perform_step_def)
  next
    case False
    then show ?thesis by (subst playLoop.simps) simp
  qed
qed

section \<open>The claims\<close>

subsection \<open>Player input\<close>

text \<open>
  Claim C1. Whenever \<open>handlePlayerInput\<close> is called in state Playing and the colour
  pressed differs from what the sequence holds at the index of the new input (nothing,
  when the index is past its end), the handler requests the error sound, sets the game
  state to GameOver and the high score to the maximum of the old high score and the
  score, raises the alert with the score and that maximum, and returns: the score is
  not incremented and no round timer is set.
\<close>

theorem C1_mismatch_ends_game:
  assumes "gameState s = Playing"
    and "js_index (sequence s) (length (playerSequence s)) \<noteq> Some c"
  shows "handlePlayerInput c s =
           (s\<lparr>activeButton := Some c, playerSequence := playerSequence s @ [c],
              gameState := GameOver, highScore := max (highScore s) (currentScore s)\<rparr>,
            [PlaySound (ColorSound c), SetTimeout ClearActiveButton 150, PlaySound ERROR,
             Alert (currentScore s) (max (highScore s) (currentScore s))])
         \<and> gameState (fst (handlePlayerInput c s)) = GameOver
         \<and> highScore (fst (handlePlayerInput c s)) = max (highScore s) (currentScore s)
         \<and> currentScore (fst (handlePlayerInput c s)) = currentScore s"
  using assms by (simp add: handlePlayerInput_cases)

theorem C1_mismatch_witness:
  "handlePlayerInput BLUE
     \<lparr>sequence = [GREEN, RED], playerSequence = [GREEN], currentScore = 3, highScore = 1,
      gameState = Playing, activeButton = None\<rparr>
   = (\<lparr>sequence = [GREEN, RED], playerSequence = [GREEN, BLUE], currentScore = 3,
       highScore = 3, gameState = GameOver, activeButton = Some BLUE\<rparr>,
      [PlaySound (ColorSound BLUE), SetTimeout ClearActiveButton 150, PlaySound ERROR,
       Alert 3 3])"
  using C1_mismatch_ends_game
    [of "\<lparr>sequence = [GREEN, RED], playerSequence = [GREEN], currentScore = 3, highScore = 1,
          gameState = Playing, activeButton = None\<rparr>" BLUE]
  by simp

text \<open>
  Claim C2. Whenever \<open>handlePlayerInput\<close> is called in state Playing, the colour
  pressed is the one the sequence holds at the index of the new input, and the player's
  sequence thereby reaches the length of the sequence, the score grows by exactly 1,
  the game state becomes Watching, the sequence is left as it is, and a timer due 1000
  ms later is set whose callback, \<open>addNewToSequence\<close>, makes the sequence exactly one
  longer.
\<close>

theorem C2_round_complete:
  assumes "gameState (app S) = Playing"
    and "js_index (sequence (app S)) (length (playerSequence (app S))) = Some c"
    and "length (playerSequence (app S)) + 1 = length (sequence (app S))"
  shows "handlePlayerInput c (app S) =
           ((app S)\<lparr>activeButton := Some c, playerSequence := playerSequence (app S) @ [c],
              currentScore := currentScore (app S) + 1, gameState := Watching\<rparr>,
            [PlaySound (ColorSound c), SetTimeout ClearActiveButton 150,
             SetTimeout AddNewToSequence 1000])
         \<and> currentScore (app (step (Press c) S)) = currentScore (app S) + 1
         \<and> gameState (app (step (Press c) S)) = Watching
         \<and> sequence (app (step (Press c) S)) = sequence (app S)
         \<and> (clock S + 1000, AddNewToSequence) \<in> set (timers (step (Press c) S))
         \<and> (\<forall>u s. length (sequence (fst (run_callback u AddNewToSequence s)))
                     = length (sequence s) + 1)"
proof -
  have h: "handlePlayerInput c (app S) =
           ((app S)\<lparr>activeButton := Some c, playerSequence := playerSequence (app S) @ [c],
              currentScore := currentScore (app S) + 1, gameState := Watching\<rparr>,
            [PlaySound (ColorSound c), SetTimeout ClearActiveButton 150,
             SetTimeout AddNewToSequence 1000])"
    using assms by (simp add: handlePlayerInput_cases)
  have a: "currentScore (app (step (Press c) S)) = currentScore (app S) + 1
      \<and> gameState (app (step (Press c) S)) = Watching
      \<and> sequence (app (step (Press c) S)) = sequence (app S)"
    by (simp add: dispatch_app useEffect_frame h)
  have t: "(clock S + 1000, AddNewToSequence) \<in> set (timers (step (Press c) S))"
    by (simp add: dispatch_timers h)
  have g: "\<forall>u s. length (sequence (fst (run_callback u AddNewToSequence s)))
                     = length (sequence s) + 1"
    by (simp add: addNewToSequence_def)
  from h a t g show ?thesis by simp
qed

theorem C2_round_complete_witness:
  "gameState (app playing_GR) = Playing
   \<and> currentScore (app playing_GR) = 1
   \<and> currentScore (app (step (Press RED) playing_GR)) = 2
   \<and> gameState (app (step (Press RED) playing_GR)) = Watching
   \<and> sequence (app (step (Press RED) playing_GR)) = [GREEN, RED]
   \<and> (6000, AddNewToSequence) \<in> set (timers (step (Press RED) playing_GR))"
  using C2_round_complete [of playing_GR RED]
  by (simp add: playing_GR_def)

text \<open>
  Claim C3. In every state the application reaches from its initial state, by any
  events whatever, and again after a further colour press on that state, the player's
  sequence is at most as long as the sequence.
\<close>

theorem C3_player_sequence_bounded:
  "length (playerSequence (app (run es init_sys))) \<le> length (sequence (app (run es init_sys)))
   \<and> length (playerSequence (app (step (Press c) (run es init_sys))))
       \<le> length (sequence (app (step (Press c) (run es init_sys))))"
proof -
  have "sys_inv (run es init_sys)" by (rule run_inv [OF init_inv])
  moreover from this have "sys_inv (step (Press c) (run es init_sys))" by (rule step_inv)
  ultimately show ?thesis by (simp add: sys_inv_def app_inv_def)
qed

theorem C3_player_sequence_bounded_witness:
  "playerSequence (app (step (Press GREEN) (run [Start 0, Fire 0] init_sys))) = [GREEN]
   \<and> sequence (app (step (Press GREEN) (run [Start 0, Fire 0] init_sys))) = [GREEN]
   \<and> length (playerSequence (app (step (Press GREEN) (run [Start 0, Fire 0] init_sys))))
       \<le> length (sequence (app (step (Press GREEN) (run [Start 0, Fire 0] init_sys))))"
  using C3_player_sequence_bounded [of "[Start 0, Fire 0]" GREEN]
  by (simp add: game_defs)

text \<open>
  Claim C4. \<open>handlePlayerInput\<close> called while the game state is Watching, Idle or
  GameOver returns at its first line: every cell (game state, player's sequence,
  sequence, score, high score) is unchanged and no effect is requested.
\<close>

theorem C4_input_ignored_unless_playing:
  assumes "gameState s = Watching \<or> gameState s = Idle \<or> gameState s = GameOver"
  shows "handlePlayerInput c s = (s, [])"
  using assms by (auto simp: handlePlayerInput_def)

theorem C4_input_ignored_witness:
  "gameState (initial_state\<lparr>sequence := [GREEN], gameState := Watching\<rparr>) = Watching
   \<and> handlePlayerInput RED (initial_state\<lparr>sequence := [GREEN], gameState := Watching\<rparr>)
       = (initial_state\<lparr>sequence := [GREEN], gameState := Watching\<rparr>, [])"
  using C4_input_ignored_unless_playing
    [of "initial_state\<lparr>sequence := [GREEN], gameState := Watching\<rparr>" RED]
  by simp

subsection \<open>Starting a game\<close>

text \<open>
  Claim C5. \<open>startGame\<close> empties the sequence and the player's sequence, sets the
  score to 0 whatever it was, sets the game state to Watching and then calls
  \<open>addNewToSequence\<close>: the sequence holds exactly the one colour just drawn. The high
  score is kept.
\<close>

theorem C5_startGame_resets:
  "startGame u s =
     addNewToSequence u (s\<lparr>sequence := [], playerSequence := [], currentScore := 0,
                            gameState := Watching\<rparr>)
   \<and> sequence (startGame u s) = [nextColor u]
   \<and> length (sequence (startGame u s)) = 1
   \<and> playerSequence (startGame u s) = []
   \<and> currentScore (startGame u s) = 0
   \<and> gameState (startGame u s) = Watching
   \<and> highScore (startGame u s) = highScore s"
  by (simp add: startGame_def addNewToSequence_def)

theorem C5_startGame_resets_witness:
  "startGame (1/2) \<lparr>sequence = [GREEN, RED, RED], playerSequence = [GREEN, BLUE],
       currentScore = 2, highScore = 2, gameState = GameOver, activeButton = None\<rparr>
   = \<lparr>sequence = [YELLOW], playerSequence = [], currentScore = 0, highScore = 2,
      gameState = Watching, activeButton = None\<rparr>"
  using C5_startGame_resets [of "1/2" "\<lparr>sequence = [GREEN, RED, RED],
       playerSequence = [GREEN, BLUE], currentScore = 2, highScore = 2,
       gameState = GameOver, activeButton = None\<rparr>"]
  by (simp add: addNewToSequence_def nextColor_def colorsArray_def)

text \<open>
  Claim C10. \<open>startGame\<close> reads no cell: called in any game state \<open>g\<close> (Watching and
  Playing included) it gives the same cells, the full reset with one colour drawn, and so
  does the start event of the running application.
\<close>

theorem C10_startGame_unguarded:
  "startGame u (s\<lparr>gameState := g\<rparr>) = startGame u s
   \<and> startGame u (s\<lparr>gameState := g\<rparr>)
       = s\<lparr>sequence := [nextColor u], playerSequence := [], currentScore := 0,
           gameState := Watching\<rparr>
   \<and> app (step (Start u) (S\<lparr>app := (app S)\<lparr>gameState := g\<rparr>\<rparr>)) = app (step (Start u) S)"
  by (simp add: startGame_def addNewToSequence_def dispatch_app)

theorem C10_startGame_unguarded_witness:
  "startGame (3/4)
     (\<lparr>sequence = [GREEN, RED], playerSequence = [GREEN], currentScore = 1, highScore = 4,
       gameState = Idle, activeButton = Some GREEN\<rparr>\<lparr>gameState := Playing\<rparr>)
   = \<lparr>sequence = [BLUE], playerSequence = [], currentScore = 0, highScore = 4,
      gameState = Watching, activeButton = Some GREEN\<rparr>"
  using C10_startGame_unguarded
    [where u = "3/4" and g = Playing and S = init_sys
       and s = "\<lparr>sequence = [GREEN, RED], playerSequence = [GREEN], currentScore = 1,
          highScore = 4, gameState = Idle, activeButton = Some GREEN\<rparr>"]
  by (simp add: startGame_def addNewToSequence_def nextColor_def colorsArray_def)

subsection \<open>The sequence and the high score over a run\<close>

text \<open>
  Claim C6, as stated: the sequence is never changed once a round's playback has begun,
  and a colour is appended only while the game state is neither Playing nor Watching.
  It fails: the press that completes a round sets the game state to Watching before it
  sets the round timer, and after \<open>two_rounds\<close> that timer fires, and appends, while
  the game state is Watching.
\<close>

theorem C6_append_while_watching:
  "list_all valid_event (two_rounds @ [Fire (3/4)])
   \<and> gameState (app (run two_rounds init_sys)) = Watching
   \<and> sequence (app (run two_rounds init_sys)) = [GREEN, RED]
   \<and> earliest (timers (run two_rounds init_sys)) = Some (2800, AddNewToSequence)
   \<and> sequence (app (step (Fire (3/4)) (run two_rounds init_sys))) = [GREEN, RED, BLUE]"
proof -
  have v: "list_all valid_event (two_rounds @ [Fire (3/4)])"
    by (simp add: two_rounds_def)
  have w: "sequence (app (step (Fire (3/4)) (run two_rounds init_sys))) = [GREEN, RED, BLUE]"
    by (simp add: two_rounds_result) (simp add: game_defs)
  from v w show ?thesis by (simp add: two_rounds_result)
qed

text \<open>
  Claim C6, amended. An event changes the sequence only if it is a start of the game,
  after which the sequence holds the one colour drawn, or the firing of a round timer
  (callback \<open>addNewToSequence\<close>), which appends the one colour drawn; colour presses,
  playback steps and highlight timers leave it as it is. A round timer comes into being
  only through a colour press that completes a round in state Playing: it is due 1000
  ms after that press, and that press has set the game state to Watching.
\<close>

theorem C6_sequence_changed_by_start_or_round_timer:
  "(sequence (app (step e S)) = sequence (app S)
    \<or> (\<exists>u. e = Start u \<and> sequence (app (step e S)) = [nextColor u])
    \<or> (\<exists>u t. e = Fire u \<and> earliest (timers S) = Some (t, AddNewToSequence)
          \<and> sequence (app (step e S)) = sequence (app S) @ [nextColor u]))
   \<and> ((t, AddNewToSequence) \<in> set (timers (step e S)) \<longrightarrow>
        (t, AddNewToSequence) \<in> set (timers S)
        \<or> (\<exists>c. e = Press c \<and> gameState (app S) = Playing
              \<and> js_index (sequence (app S)) (length (playerSequence (app S))) = Some c
              \<and> length (playerSequence (app S)) + 1 = length (sequence (app S))
              \<and> gameState (app (step e S)) = Watching \<and> t = clock S + 1000))"
  using step_sequence [of e S] step_AddNew_timer [of t e S] by blast

theorem C6_sequence_changed_witness:
  "(1400, AddNewToSequence) \<in> set (timers (step (Press GREEN) before_replay))
   \<and> (1400, AddNewToSequence) \<notin> set (timers before_replay)
   \<and> gameState (app before_replay) = Playing
   \<and> gameState (app (step (Press GREEN) before_replay)) = Watching
   \<and> clock before_replay = 400
   \<and> sequence (app (step (Press GREEN) before_replay)) = sequence (app before_replay)"
proof -
  have m: "(1400, AddNewToSequence) \<in> set (timers (step (Press GREEN) before_replay))"
    by (simp add: before_replay_def game_defs)
  have n: "(1400, AddNewToSequence) \<notin> set (timers before_replay)"
    by (simp add: before_replay_def game_defs)
  have s: "sequence (app (step (Press GREEN) before_replay)) = sequence (app before_replay)"
    by (simp add: before_replay_def game_defs)
  have c: "clock before_replay = 400"
    by (simp add: before_replay_def game_defs)
  from C6_sequence_changed_by_start_or_round_timer [of "Press GREEN" before_replay 1400] m n s c
  show ?thesis by auto
qed

text \<open>
  Claim C7. No event lowers the high score; an event changes it only if it is a colour
  press in state Playing that does not match the sequence while the score is strictly
  greater than the high score, which then becomes the score; hence over any run of
  events the high score never decreases.
\<close>

theorem C7_highScore_monotone:
  "highScore (app S) \<le> highScore (app (step e S))
   \<and> (highScore (app (step e S)) \<noteq> highScore (app S) \<longrightarrow>
        (\<exists>c. e = Press c \<and> gameState (app S) = Playing
           \<and> js_index (sequence (app S)) (length (playerSequence (app S))) \<noteq> Some c
           \<and> highScore (app S) < currentScore (app S)
           \<and> highScore (app (step e S)) = currentScore (app S)
           \<and> gameState (app (step e S)) = GameOver))
   \<and> highScore (app S) \<le> highScore (app (run es S))"
  using step_frame [of e S] step_highScore_le [of S e] run_highScore_le [of S es]
  by blast

lemma losing_GR_changes:
  "highScore (app (step (Press BLUE) losing_GR)) \<noteq> highScore (app losing_GR)"
  by (simp add: losing_GR_def game_defs)

theorem C7_highScore_monotone_witness:
  "highScore (app (step (Press BLUE) losing_GR)) \<noteq> highScore (app losing_GR)
   \<and> highScore (app losing_GR) \<le> highScore (app (step (Press BLUE) losing_GR))
   \<and> (\<exists>c. Press BLUE = Press c \<and> gameState (app losing_GR) = Playing
         \<and> js_index (sequence (app losing_GR)) (length (playerSequence (app losing_GR))) \<noteq> Some c
         \<and> highScore (app losing_GR) < currentScore (app losing_GR)
         \<and> highScore (app (step (Press BLUE) losing_GR)) = currentScore (app losing_GR)
         \<and> gameState (app (step (Press BLUE) losing_GR)) = GameOver)"
  using C7_highScore_monotone [of losing_GR "Press BLUE" "[]"] losing_GR_changes
  by blast

subsection \<open>Generating and playing back the sequence\<close>

text \<open>
  Claim C8. Each call of \<open>addNewToSequence\<close> appends exactly one colour, taken from
  \<open>colorsArray\<close> at an index within its bounds; so \<open>N\<close> calls make any sequence \<open>N\<close>
  longer, and from the empty sequence give one of length \<open>N\<close> whose elements all are
  among GREEN, RED, YELLOW and BLUE. (\<open>Math.random()\<close> returns \<open>0 \<le> u < 1\<close>.)
\<close>

theorem C8_generate_appends_colours:
  assumes "\<forall>u \<in> set us. 0 \<le> u \<and> u < 1"
  shows "generate us s = s\<lparr>sequence := sequence s @ map nextColor us\<rparr>
     \<and> length (sequence (generate us s)) = length (sequence s) + length us
     \<and> length (sequence (generate us initial_state)) = length us
     \<and> (\<forall>u \<in> set us. nat \<lfloor>u * real (length colorsArray)\<rfloor> < length colorsArray)
     \<and> set (map nextColor us) \<subseteq> set colorsArray
     \<and> set (sequence (generate us initial_state)) \<subseteq> {GREEN, RED, YELLOW, BLUE}"
proof -
  have r: "\<forall>u \<in> set us. nat \<lfloor>u * real (length colorsArray)\<rfloor> < length colorsArray"
    using assms nextColor_range by blast
  have m: "set (map nextColor us) \<subseteq> set colorsArray"
    using assms nextColor_mem by auto
  have i: "sequence (generate us initial_state) = map nextColor us"
    by (simp add: generate_eq initial_state_def)
  show ?thesis
    using r m i set_colorsArray by (simp add: generate_eq initial_state_def)
qed

theorem C8_generate_witness:
  "sequence (generate [0, 1/4, 1/2, 3/4, 1/4] initial_state) = [GREEN, RED, YELLOW, BLUE, RED]
   \<and> length (sequence (generate [0, 1/4, 1/2, 3/4, 1/4] initial_state)) = 5"
proof -
  have h: "\<forall>u \<in> set [0, 1/4, 1/2, 3/4, 1/4 :: real]. 0 \<le> u \<and> u < 1" by simp
  from C8_generate_appends_colours [OF h, of initial_state]
  show ?thesis by (simp add: initial_state_def nextColor_def colorsArray_def)
qed

text \<open>
  Claim C9. For a non-empty sequence, what the loop of \<open>playSequence\<close> executes is the
  plan of the specification carried out step by step: one step per symbol of the
  sequence, in order, each highlighted for \<open>HIGHLIGHT_DURATION\<close> and followed by a gap of
  \<open>SEQUENCE_DELAY - HIGHLIGHT_DURATION\<close>, except the last, which is followed by no gap;
  in state Watching the body of \<open>playSequence\<close> is that plan followed by the switch to
  Playing.
\<close>

theorem C9_playback_plan:
  assumes "sq \<noteq> []"
  shows "playLoop sq 0 = perform_plan (build_playback_plan sq)
     \<and> length (build_playback_plan sq) = length sq
     \<and> (\<forall>i < length sq.
           symbol (build_playback_plan sq ! i) = sq ! i
           \<and> highlight_on_duration (build_playback_plan sq ! i) = HIGHLIGHT_DURATION
           \<and> gap_after_duration (build_playback_plan sq ! i)
               = (if i = length sq - 1 then 0 else SEQUENCE_DELAY - HIGHLIGHT_DURATION))
     \<and> (\<forall>s. gameState s = Watching \<and> sequence s = sq \<longrightarrow>
           playSequence_body s
             = perform_plan (build_playback_plan sq) @ [SetGameState Playing, SetPlayerSequence []])"
proof -
  have p: "playLoop sq 0 = perform_plan (build_playback_plan sq)"
    by (simp add: playLoop_plan perform_plan_def build_playback_plan_def comp_def)
  have b: "\<forall>s. gameState s = Watching \<and> sequence s = sq \<longrightarrow>
           playSequence_body s
             = perform_plan (build_playback_plan sq) @ [SetGameState Playing, SetPlayerSequence []]"
    using assms p by (simp add: playSequence_body_def)
  have n: "\<forall>i < length sq.
           symbol (build_playback_plan sq ! i) = sq ! i
           \<and> highlight_on_duration (build_playback_plan sq ! i) = HIGHLIGHT_DURATION
           \<and> gap_after_duration (build_playback_plan sq ! i)
               = (if i = length sq - 1 then 0 else SEQUENCE_DELAY - HIGHLIGHT_DURATION)"
    by (simp add: build_playback_plan_def)
  from p b n show ?thesis by (simp add: build_playback_plan_def)
qed

theorem C9_playback_plan_witness:
  "[GREEN, RED, RED] \<noteq> []
   \<and> build_playback_plan [GREEN, RED, RED] =
       [\<lparr>symbol = GREEN, highlight_on_duration = 300, gap_after_duration = 500\<rparr>,
        \<lparr>symbol = RED, highlight_on_duration = 300, gap_after_duration = 500\<rparr>,
        \<lparr>symbol = RED, highlight_on_duration = 300, gap_after_duration = 0\<rparr>]
   \<and> playLoop [GREEN, RED, RED] 0 =
       [SetActiveButton (Some GREEN), PlaySnd GREEN, Await 300, SetActiveButton None, Await 500,
        SetActiveButton (Some RED), PlaySnd RED, Await 300, SetActiveButton None, Await 500,
        SetActiveButton (Some RED), PlaySnd RED, Await 300, SetActiveButton None]"
proof -
  have h: "[GREEN, RED, RED] \<noteq> []" by simp
  have b: "build_playback_plan [GREEN, RED, RED] =
       [\<lparr>symbol = GREEN, highlight_on_duration = 300, gap_after_duration = 500\<rparr>,
        \<lparr>symbol = RED, highlight_on_duration = 300, gap_after_duration = 500\<rparr>,
        \<lparr>symbol = RED, highlight_on_duration = 300, gap_after_duration = 0\<rparr>]"
    by (simp add: build_playback_plan_def upt_conv_Cons HIGHLIGHT_DURATION_def SEQUENCE_DELAY_def)
  from C9_playback_plan [OF h] b show ?thesis
    by (simp add: perform_plan_def perform_step_def)
qed

end
